theory Spec2Isabelle
  imports Complex_Main "HOL-Library.Stream"
begin

section \<open>The linear model of \<^verbatim>\<open>linear_model.py\<close>\<close>

text \<open>
  The class \<^verbatim>\<open>LinearModel\<close> holds a slope \<^verbatim>\<open>m\<close>, an intercept \<^verbatim>\<open>b\<close> and a list
  \<^verbatim>\<open>history\<close> of dictionaries, one per recorded training step. Its numbers are Python
  floats.

  Every method takes the object and returns its result together with the object as the
  method leaves it, so that what a method does to the object is part of its model.
  A raised exception is a value \<open>Inl e\<close> of the result.
\<close>

subsection \<open>Floats\<close>

text \<open>
  A float is a finite number, an infinity or NaN. The result of an arithmetic operation
  on finite floats is the exact result rounded to the nearest binary64 number, a tie
  going to the even one, and an infinity when the rounded result is out of range.
  The sign of a zero is not modelled.
\<close>

datatype py_float = Fin real | PInf | NInf | NaN

datatype py_error = ZeroDivisionError | ValueError | OverflowError

definition round_half_even :: "real \<Rightarrow> int" where
  "round_half_even r =
     (let f = \<lfloor>r\<rfloor>; d = r - of_int f
      in if d < 1 / 2 then f
         else if 1 / 2 < d then f + 1
         else if even f then f else f + 1)"

text \<open>
  The distance between neighbouring binary64 numbers around \<open>r \<noteq> 0\<close>: 52 binary places
  below the leading bit of \<open>r\<close>, and never less than \<open>2 powi - 1074\<close>.
\<close>

definition binary64_ulp :: "real \<Rightarrow> real" where
  "binary64_ulp r = 2 powi (max \<lfloor>log 2 \<bar>r\<bar>\<rfloor> (- 1022) - 52)"

definition round_binary64 :: "real \<Rightarrow> real" where
  "round_binary64 r =
     (if r = 0 then 0 else of_int (round_half_even (r / binary64_ulp r)) * binary64_ulp r)"

definition round_float :: "real \<Rightarrow> py_float" where
  "round_float r =
     (let v = round_binary64 r
      in if 2 ^ 1024 \<le> v then PInf else if v \<le> - (2 ^ 1024) then NInf else Fin v)"

fun float_neg :: "py_float \<Rightarrow> py_float" where
  "float_neg (Fin x) = Fin (- x)"
| "float_neg PInf = NInf"
| "float_neg NInf = PInf"
| "float_neg NaN = NaN"

fun float_add :: "py_float \<Rightarrow> py_float \<Rightarrow> py_float" where
  "float_add (Fin x) (Fin y) = round_float (x + y)"
| "float_add NaN v = NaN"
| "float_add u NaN = NaN"
| "float_add PInf NInf = NaN"
| "float_add NInf PInf = NaN"
| "float_add PInf v = PInf"
| "float_add u PInf = PInf"
| "float_add NInf v = NInf"
| "float_add u NInf = NInf"

definition float_sub :: "py_float \<Rightarrow> py_float \<Rightarrow> py_float" where
  "float_sub u v = float_add u (float_neg v)"

fun float_sign :: "py_float \<Rightarrow> int" where
  "float_sign (Fin x) = (if x < 0 then - 1 else if x = 0 then 0 else 1)"
| "float_sign PInf = 1"
| "float_sign NInf = - 1"
| "float_sign NaN = 0"

text \<open>An infinity times zero is NaN; otherwise the product of the signs decides.\<close>

definition float_mul :: "py_float \<Rightarrow> py_float \<Rightarrow> py_float" where
  "float_mul u v =
     (case (u, v) of
        (Fin x, Fin y) \<Rightarrow> round_float (x * y)
      | _ \<Rightarrow>
          if u = NaN \<or> v = NaN then NaN
          else (let s = float_sign u * float_sign v
                in if 0 < s then PInf else if s < 0 then NInf else NaN))"

text \<open>
  \<^verbatim>\<open>v ** 2\<close>: the square of a finite float raises \<^verbatim>\<open>OverflowError\<close> when it is out of
  range; the square of an infinity is the positive infinity, that of NaN is NaN.
\<close>

definition float_pow2 :: "py_float \<Rightarrow> py_error + py_float" where
  "float_pow2 v =
     (case v of
        Fin x \<Rightarrow> (case round_float (x ^ 2) of Fin s \<Rightarrow> Inr (Fin s) | _ \<Rightarrow> Inl OverflowError)
      | PInf \<Rightarrow> Inr PInf
      | NInf \<Rightarrow> Inr PInf
      | NaN \<Rightarrow> Inr NaN)"

text \<open>
  \<^verbatim>\<open>math.sqrt\<close> raises \<^verbatim>\<open>ValueError\<close> on a negative argument, the negative infinity
  included.
\<close>

fun float_negative :: "py_float \<Rightarrow> bool" where
  "float_negative (Fin x) = (x < 0)"
| "float_negative NInf = True"
| "float_negative PInf = False"
| "float_negative NaN = False"

fun float_sqrt :: "py_float \<Rightarrow> py_float" where
  "float_sqrt (Fin x) = round_float (sqrt x)"
| "float_sqrt v = v"

definition math_sqrt :: "py_float \<Rightarrow> py_error + py_float" where
  "math_sqrt v = (if float_negative v then Inl ValueError else Inr (float_sqrt v))"

text \<open>
  Division of a float by a length raises \<^verbatim>\<open>ZeroDivisionError\<close> when the length is 0.
  (The length itself is taken as a float without rounding: a list has far fewer than
  \<open>2 ^ 53\<close> elements.)
\<close>

fun float_div_nat :: "py_float \<Rightarrow> nat \<Rightarrow> py_float" where
  "float_div_nat (Fin x) n = round_float (x / real n)"
| "float_div_nat v n = v"

definition truediv :: "py_float \<Rightarrow> nat \<Rightarrow> py_error + py_float" where
  "truediv v n = (if n = 0 then Inl ZeroDivisionError else Inr (float_div_nat v n))"

subsection \<open>Data\<close>

text \<open>
  The dictionary that \<^verbatim>\<open>update_history\<close> appends has a fixed set of keys; it is a
  record whose fields are the keys, prefixed by \<open>rec_\<close>.
\<close>

record training_record =
  rec_m :: py_float
  rec_b :: py_float
  rec_observation :: "py_float \<times> py_float"
  rec_prediction :: py_float
  rec_error :: py_float
  rec_loss :: py_float
  rec_epoch :: int
  rec_message :: "string option"

record linear_model =
  m :: py_float
  b :: py_float
  history :: "training_record list"

subsection \<open>The random number generator\<close>

text \<open>
  The generator is the stream of the values that successive calls of
  \<^verbatim>\<open>random.random()\<close> return. Each call takes the head and leaves the tail.
  A generator is well formed when every value lies in \<open>[0, 1)\<close>, as the library promises.
\<close>

type_synonym rng = "real stream"

definition random_random :: "rng \<Rightarrow> py_float \<times> rng" where
  "random_random g = (Fin (shd g), stl g)"

definition unit_interval :: "real \<Rightarrow> bool" where
  "unit_interval r = (0 \<le> r \<and> r < 1)"

definition rng_ok :: "rng \<Rightarrow> bool" where
  "rng_ok g = pred_stream unit_interval g"

subsection \<open>Construction\<close>

text \<open>
  \<^verbatim>\<open>v or random.random()\<close>: the argument is returned when it is truthy; \<^verbatim>\<open>None\<close> and
  zero are falsy (NaN and the infinities are not), and only then is the generator called.
\<close>

definition or_random :: "py_float option \<Rightarrow> rng \<Rightarrow> py_float \<times> rng" where
  "or_random v g =
     (case v of
        None \<Rightarrow> random_random g
      | Some f \<Rightarrow> if f = Fin 0 then random_random g else (f, g))"

text \<open>\<^verbatim>\<open>__init__(self, m=None, b=None)\<close>.\<close>

definition init :: "py_float option \<Rightarrow> py_float option \<Rightarrow> rng \<Rightarrow> linear_model \<times> rng" where
  "init m0 b0 g =
     (let (mv, g1) = or_random m0 g;
          (bv, g2) = or_random b0 g1
      in (\<lparr>m = mv, b = bv, history = []\<rparr>, g2))"

subsection \<open>Prediction, error, loss, gradient\<close>

text \<open>
  The methods take floats. (\<^verbatim>\<open>error\<close> declares the default \<^verbatim>\<open>None\<close> for both
  parameters; a call that leaves one out fails in the arithmetic and is not modelled.)
\<close>

definition predict :: "py_float \<Rightarrow> linear_model \<Rightarrow> py_float \<times> linear_model" where
  "predict x self = (float_add (float_mul (m self) x) (b self), self)"

definition error :: "py_float \<Rightarrow> py_float \<Rightarrow> linear_model \<Rightarrow> py_float \<times> linear_model" where
  "error x y self = (let (p, s1) = predict x self in (float_sub p y, s1))"

definition gradient ::
  "py_float \<Rightarrow> py_float \<Rightarrow> linear_model \<Rightarrow> (py_float \<times> py_float) \<times> linear_model" where
  "gradient x y self =
     (let (e1, s1) = error x y self;
          (e2, s2) = error x y s1
      in ((float_mul x e1, e2), s2))"

definition loss ::
  "py_float \<Rightarrow> py_float \<Rightarrow> linear_model \<Rightarrow> (py_error + py_float) \<times> linear_model" where
  "loss x y self = (let (e, s1) = error x y self in (float_pow2 e, s1))"

subsection \<open>The aggregate error\<close>

text \<open>
  \<^verbatim>\<open>list(self.loss(x,y) for x,y in zip(xlist, ylist))\<close>: the losses of the pairs, in
  order, up to the first one that raises; \<open>zip\<close> stops at the end of the shorter list,
  as Python's does.
\<close>

fun loss_list ::
  "(py_float \<times> py_float) list \<Rightarrow> linear_model \<Rightarrow> (py_error + py_float list) \<times> linear_model" where
  "loss_list [] self = (Inr [], self)"
| "loss_list ((x, y) # ps) self =
     (let (r, s1) = loss x y self
      in case r of
           Inl e \<Rightarrow> (Inl e, s1)
         | Inr l \<Rightarrow>
             (let (rs, s2) = loss_list ps s1
              in case rs of
                   Inl e \<Rightarrow> (Inl e, s2)
                 | Inr ls \<Rightarrow> (Inr (l # ls), s2)))"

text \<open>
  \<^verbatim>\<open>sum\<close> adds from the left, starting at 0. (Recent versions of Python carry a
  correction term for the rounding errors of the additions; that changes the last bits of
  the sum and nothing else.)
\<close>

definition py_sum :: "py_float list \<Rightarrow> py_float" where
  "py_sum ls = foldl float_add (Fin 0) ls"

definition rmse ::
  "py_float list \<Rightarrow> py_float list \<Rightarrow> linear_model \<Rightarrow> (py_error + py_float) \<times> linear_model" where
  "rmse xlist ylist self =
     (let (r, s1) = loss_list (zip xlist ylist) self
      in case r of
           Inl e \<Rightarrow> (Inl e, s1)
         | Inr ls \<Rightarrow>
             (case math_sqrt (py_sum ls) of
                Inl e \<Rightarrow> (Inl e, s1)
              | Inr v \<Rightarrow> (truediv v (length xlist), s1)))"

subsection \<open>Mutation\<close>

definition step :: "py_float \<Rightarrow> py_float \<Rightarrow> linear_model \<Rightarrow> unit \<times> linear_model" where
  "step m_step b_step self =
     (let s1 = self\<lparr>m := float_add (m self) m_step\<rparr>;
          s2 = s1\<lparr>b := float_add (b s1) b_step\<rparr>
      in ((), s2))"

text \<open>
  \<^verbatim>\<open>update_history(self, x, y, epoch=0, message=None)\<close>. The values of the dictionary
  are evaluated in the order they are written, then the dictionary is appended; when
  \<^verbatim>\<open>loss\<close> raises, nothing is appended.
\<close>

definition update_history ::
  "py_float \<Rightarrow> py_float \<Rightarrow> int \<Rightarrow> string option \<Rightarrow> linear_model \<Rightarrow>
     (py_error + unit) \<times> linear_model" where
  "update_history x y epoch message self =
     (let mv = m self;
          bv = b self;
          (p, s1) = predict x self;
          (e, s2) = error x y s1;
          (r, s3) = loss x y s2
      in case r of
           Inl err \<Rightarrow> (Inl err, s3)
         | Inr l \<Rightarrow>
             (Inr (), s3\<lparr>history := history s3 @
                [\<lparr>rec_m = mv, rec_b = bv, rec_observation = (x, y), rec_prediction = p,
                  rec_error = e, rec_loss = l, rec_epoch = epoch, rec_message = message\<rparr>]\<rparr>))"

subsection \<open>The string form\<close>







subsection \<open>Reading a decimal string\<close>




subsection \<open>Predicates on floats used in the statements\<close>

fun is_finite :: "py_float \<Rightarrow> bool" where
  "is_finite (Fin x) = True"
| "is_finite v = False"

text \<open>The comparison \<^verbatim>\<open>v >= 0\<close>, which is false of NaN.\<close>

fun float_ge_zero :: "py_float \<Rightarrow> bool" where
  "float_ge_zero (Fin x) = (0 \<le> x)"
| "float_ge_zero PInf = True"
| "float_ge_zero NInf = False"
| "float_ge_zero NaN = False"

text \<open>An addition of two finite floats that loses nothing to rounding.\<close>

fun exact_add :: "py_float \<Rightarrow> py_float \<Rightarrow> bool" where
  "exact_add (Fin x) (Fin y) = (round_float (x + y) = Fin (x + y))"
| "exact_add u v = False"

section \<open>Properties\<close>

subsection \<open>Rounding\<close>

lemma round_half_even_of_int: "round_half_even (of_int j) = j"
  by (simp add: round_half_even_def)

lemma round_half_even_nonneg: "0 \<le> r \<Longrightarrow> 0 \<le> round_half_even r"
proof -
  assume "0 \<le> r"
  then have "0 \<le> \<lfloor>r\<rfloor>" by simp
  then show ?thesis
    unfolding round_half_even_def Let_def by simp
qed


lemma binary64_ulp_pos: "0 < binary64_ulp r"
  by (simp add: binary64_ulp_def)

lemma round_binary64_nonneg: "0 \<le> r \<Longrightarrow> 0 \<le> round_binary64 r"
  using binary64_ulp_pos [of r] round_half_even_nonneg [of "r / binary64_ulp r"]
  by (simp add: round_binary64_def)

lemma round_float_nonneg: "0 \<le> r \<Longrightarrow> \<not> float_negative (round_float r)"
  using round_binary64_nonneg [of r] by (simp add: round_float_def Let_def)

lemma round_float_zero: "round_float 0 = Fin 0"
  by (simp add: round_float_def round_binary64_def)

lemma floor_log2_less:
  assumes "0 < a" and "a < 2 ^ n"
  shows "\<lfloor>log 2 a\<rfloor> < int n"
proof -
  have "log 2 a < real n"
    using assms by (simp add: log_less_iff powr_realpow)
  then show ?thesis by linarith
qed

lemma round_binary64_exact:
  assumes "\<bar>k\<bar> < 2 ^ 53"
  shows "round_binary64 (of_int k * 2 ^ p) = of_int k * 2 ^ p"
proof (cases "k = 0")
  case True
  then show ?thesis by (simp add: round_binary64_def)
next
  case False
  define r :: real where "r = of_int k * 2 ^ p"
  define ue where "ue = max \<lfloor>log 2 \<bar>r\<bar>\<rfloor> (- 1022) - 52"
  have rne: "r \<noteq> 0" using False by (simp add: r_def)
  have "\<bar>r\<bar> = of_int \<bar>k\<bar> * 2 ^ p" by (simp add: r_def abs_mult)
  moreover have "of_int \<bar>k\<bar> < (2 ^ 53 :: real)"
    using assms by (metis of_int_less_numeral_power_cancel_iff)
  ultimately have "\<bar>r\<bar> < 2 ^ 53 * 2 ^ p" by simp
  then have "\<bar>r\<bar> < 2 ^ (53 + p)" by (simp add: power_add)
  then have "\<lfloor>log 2 \<bar>r\<bar>\<rfloor> < int (53 + p)"
    using rne by (intro floor_log2_less) simp_all
  then have ue: "ue \<le> int p" by (simp add: ue_def)
  define q where "q = nat (int p - ue)"
  have u: "binary64_ulp r = 2 powi ue" by (simp add: binary64_ulp_def ue_def)
  have "(2::real) ^ p = 2 powi (int p - ue) * 2 powi ue"
    by (simp flip: power_int_add)
  also have "(2::real) powi (int p - ue) = 2 ^ q"
    using ue by (simp add: q_def power_int_nonneg_exp)
  finally have p: "(2::real) ^ p = 2 ^ q * 2 powi ue" .
  have "r / binary64_ulp r = r / 2 powi ue"
    by (simp only: u)
  also have "\<dots> = of_int k * 2 ^ q"
    by (simp add: r_def p)
  also have "\<dots> = of_int (k * 2 ^ q)" by simp
  finally have "round_half_even (r / binary64_ulp r) = k * 2 ^ q"
    by (simp only: round_half_even_of_int)
  then have "round_binary64 r = of_int (k * 2 ^ q) * 2 powi ue"
    using rne by (simp add: round_binary64_def u)
  also have "\<dots> = r" by (simp add: r_def p)
  finally show ?thesis by (simp add: r_def)
qed

lemma round_float_exact:
  assumes "\<bar>k\<bar> < 2 ^ 53" and "p \<le> 971"
  shows "round_float (of_int k * 2 ^ p) = Fin (of_int k * 2 ^ p)"
proof -
  have k: "\<bar>real_of_int k\<bar> < 2 ^ 53"
    using assms(1) by (metis of_int_abs of_int_less_numeral_power_cancel_iff)
  have pw: "(2::real) ^ p \<le> 2 ^ 971"
    using assms(2) by (intro power_increasing) simp_all
  have "\<bar>real_of_int k\<bar> * 2 ^ p < 2 ^ 53 * 2 ^ 971"
    by (rule mult_less_le_imp_less) (use k pw in simp_all)
  then have "\<bar>real_of_int k * 2 ^ p\<bar> < 2 ^ 53 * 2 ^ 971"
    by (simp add: abs_mult)
  then have "\<bar>real_of_int k * 2 ^ p\<bar> < 2 ^ 1024" by simp
  then show ?thesis
    by (simp add: round_float_def round_binary64_exact [OF assms(1)] abs_less_iff not_le)
qed

lemma round_float_int: "\<bar>k\<bar> < 2 ^ 53 \<Longrightarrow> round_float (of_int k) = Fin (of_int k)"
  using round_float_exact [of k 0] by simp

lemma round_float_numeral:
  "numeral n < (2 ^ 53 :: int) \<Longrightarrow> round_float (numeral n) = Fin (numeral n)"
  "numeral n < (2 ^ 53 :: int) \<Longrightarrow> round_float (- numeral n) = Fin (- numeral n)"
  using round_float_int [of "numeral n"] round_float_int [of "- numeral n"] by simp_all

lemma round_float_one: "round_float 1 = Fin 1"
  using round_float_int [of 1] by simp

lemma round_float_huge: "round_float (2 ^ 1200) = PInf"
  using round_binary64_exact [of 1 1200] by (simp add: round_float_def)

lemma round_float_tie: "round_float (2 ^ 53 + 1) = Fin (2 ^ 53)"
proof -
  have "\<lfloor>log 2 \<bar>2 ^ 53 + 1 :: real\<bar>\<rfloor> = 53"
    by (simp add: floor_log_eq_powr_iff)
  then have u: "binary64_ulp (2 ^ 53 + 1) = 2"
    by (simp add: binary64_ulp_def)
  have "round_half_even ((2 ^ 53 + 1) / 2) = 2 ^ 52"
    by (simp add: round_half_even_def)
  then have "round_binary64 (2 ^ 53 + 1) = 2 ^ 53"
    unfolding round_binary64_def u by simp
  then show ?thesis
    by (simp add: round_float_def)
qed


subsection \<open>Operations\<close>

lemma float_add_not_negative:
  "\<not> float_negative u \<Longrightarrow> \<not> float_negative v \<Longrightarrow> \<not> float_negative (float_add u v)"
  by (cases u; cases v) (simp_all add: round_float_nonneg)

lemma foldl_add_not_negative:
  "\<not> float_negative a \<Longrightarrow> list_all (\<lambda>v. \<not> float_negative v) ls \<Longrightarrow>
     \<not> float_negative (foldl float_add a ls)"
  by (induction ls arbitrary: a) (simp_all add: float_add_not_negative)

lemma py_sum_not_negative:
  "list_all (\<lambda>v. \<not> float_negative v) ls \<Longrightarrow> \<not> float_negative (py_sum ls)"
  by (simp add: py_sum_def foldl_add_not_negative)

lemma float_pow2_cases:
  "float_pow2 v = Inl OverflowError \<or> (\<exists>s. float_pow2 v = Inr s \<and> \<not> float_negative s)"
proof (cases v)
  case (Fin x)
  have "\<not> float_negative (round_float (x ^ 2))"
    by (rule round_float_nonneg) simp
  then show ?thesis
    by (cases "round_float (x ^ 2)") (simp_all add: float_pow2_def Fin)
qed (simp_all add: float_pow2_def)

lemma float_pow2_not_negative: "float_pow2 v = Inr s \<Longrightarrow> \<not> float_negative s"
  using float_pow2_cases [of v] by auto

lemma float_pow2_error: "float_pow2 v = Inl e \<Longrightarrow> e = OverflowError"
  using float_pow2_cases [of v] by auto

lemma float_pow2_overflow_iff:
  "float_pow2 v = Inl OverflowError \<longleftrightarrow>
     (\<exists>x. v = Fin x \<and> \<not> is_finite (round_float (x ^ 2)))"
proof (cases v)
  case (Fin x)
  then show ?thesis
    by (cases "round_float (x ^ 2)") (simp_all add: float_pow2_def)
qed (simp_all add: float_pow2_def)

subsection \<open>Prediction, error, loss\<close>

lemma error_eq:
  "error x y self = (float_sub (float_add (float_mul (m self) x) (b self)) y, self)"
  by (simp add: error_def predict_def)

lemma loss_eq:
  "loss x y self =
     (float_pow2 (float_sub (float_add (float_mul (m self) x) (b self)) y), self)"
  by (simp add: loss_def error_eq)

lemma loss_state: "snd (loss x y self) = self"
  by (simp add: loss_eq)

lemma loss_cases:
  "fst (loss x y self) = Inl OverflowError \<or>
     (\<exists>l. fst (loss x y self) = Inr l \<and> \<not> float_negative l)"
  using float_pow2_cases by (simp add: loss_eq)

subsection \<open>The list of losses\<close>

lemma loss_list_state: "snd (loss_list ps self) = self"
proof (induction ps arbitrary: self)
  case Nil
  show ?case by simp
next
  case (Cons p ps)
  obtain x y where p: "p = (x, y)" by (cases p)
  show ?case
    using Cons [of self]
    by (auto simp: p loss_eq split: sum.splits prod.splits)
qed

lemma loss_list_ok:
  "map (\<lambda>(x, y). fst (loss x y self)) ps = map Inr ls \<Longrightarrow> loss_list ps self = (Inr ls, self)"
proof (induction ps arbitrary: ls)
  case Nil
  then show ?case by simp
next
  case (Cons p ps)
  obtain x y where p: "p = (x, y)" by (cases p)
  from Cons.prems obtain l ls' where ls: "ls = l # ls'"
    and l: "fst (loss x y self) = Inr l"
    and rest: "map (\<lambda>(x, y). fst (loss x y self)) ps = map Inr ls'"
    by (auto simp: p Cons_eq_map_conv)
  have "loss x y self = (Inr l, self)"
    using l loss_state [of x y self] by (metis prod.collapse)
  then show ?case
    using Cons.IH [OF rest] by (simp add: p ls)
qed

lemma loss_list_overflow:
  "Inl OverflowError \<in> set (map (\<lambda>(x, y). fst (loss x y self)) ps) \<Longrightarrow>
     loss_list ps self = (Inl OverflowError, self)"
proof (induction ps)
  case Nil
  then show ?case by simp
next
  case (Cons p ps)
  obtain x y where p: "p = (x, y)" by (cases p)
  have st: "loss x y self = (fst (loss x y self), self)"
    using loss_state [of x y self] by (metis prod.collapse)
  from loss_cases [of x y self] show ?case
  proof
    assume "fst (loss x y self) = Inl OverflowError"
    with st have "loss x y self = (Inl OverflowError, self)" by simp
    then show ?thesis by (simp add: p)
  next
    assume "\<exists>l. fst (loss x y self) = Inr l \<and> \<not> float_negative l"
    then obtain l where l: "fst (loss x y self) = Inr l" by blast
    with st have h: "loss x y self = (Inr l, self)" by simp
    from Cons.prems l have "Inl OverflowError \<in> set (map (\<lambda>(x, y). fst (loss x y self)) ps)"
      by (simp add: p)
    from Cons.IH [OF this] h show ?thesis by (simp add: p)
  qed
qed

lemma losses_cases:
  "Inl OverflowError \<in> set (map (\<lambda>(x, y). fst (loss x y self)) ps) \<or>
   (\<exists>ls. map (\<lambda>(x, y). fst (loss x y self)) ps = map Inr ls \<and>
      list_all (\<lambda>v. \<not> float_negative v) ls)"
proof (induction ps)
  case Nil
  show ?case by simp
next
  case (Cons p ps)
  obtain x y where p: "p = (x, y)" by (cases p)
  from loss_cases [of x y self] Cons show ?case
  proof (elim disjE exE conjE)
    fix l ls
    assume "fst (loss x y self) = Inr l" "\<not> float_negative l"
      "map (\<lambda>(x, y). fst (loss x y self)) ps = map Inr ls"
      "list_all (\<lambda>v. \<not> float_negative v) ls"
    then have "map (\<lambda>(x, y). fst (loss x y self)) (p # ps) = map Inr (l # ls) \<and>
        list_all (\<lambda>v. \<not> float_negative v) (l # ls)"
      by (simp add: p)
    then show ?thesis by blast
  qed (simp_all add: p)
qed

lemma losses_not_negative:
  assumes "map (\<lambda>(x, y). fst (loss x y self)) ps = map Inr ls"
  shows "list_all (\<lambda>v. \<not> float_negative v) ls"
proof -
  from losses_cases [of self ps] show ?thesis
  proof
    assume "Inl OverflowError \<in> set (map (\<lambda>(x, y). fst (loss x y self)) ps)"
    with assms show ?thesis by auto
  next
    assume "\<exists>ls. map (\<lambda>(x, y). fst (loss x y self)) ps = map Inr ls \<and>
      list_all (\<lambda>v. \<not> float_negative v) ls"
    then obtain ls' where "map (\<lambda>(x, y). fst (loss x y self)) ps = map Inr ls'"
      and ok: "list_all (\<lambda>v. \<not> float_negative v) ls'" by blast
    with assms have "map Inr ls = (map Inr ls' :: (py_error + py_float) list)" by simp
    then have "ls = ls'" by simp
    with ok show ?thesis by simp
  qed
qed

subsection \<open>The aggregate error\<close>

lemma rmse_overflow:
  "Inl OverflowError \<in> set (map (\<lambda>(x, y). fst (loss x y self)) (zip xs ys)) \<Longrightarrow>
     rmse xs ys self = (Inl OverflowError, self)"
  by (simp add: rmse_def loss_list_overflow)

lemma rmse_ok:
  assumes "map (\<lambda>(x, y). fst (loss x y self)) (zip xs ys) = map Inr ls"
  shows "rmse xs ys self =
     (if xs = [] then Inl ZeroDivisionError
      else Inr (float_div_nat (float_sqrt (py_sum ls)) (length xs)), self)"
proof -
  have "\<not> float_negative (py_sum ls)"
    by (rule py_sum_not_negative) (rule losses_not_negative [OF assms])
  then show ?thesis
    by (simp add: rmse_def loss_list_ok [OF assms] math_sqrt_def truediv_def)
qed

lemma zip_map_nth:
  "map (\<lambda>(x, y). f x y) (zip xs ys) =
     map (\<lambda>i. f (xs ! i) (ys ! i)) [0..<min (length xs) (length ys)]"
  by (rule nth_equalityI) simp_all

subsection \<open>Worked values\<close>

lemmas float_eval = float_mul_def float_sub_def float_pow2_def round_float_numeral
  round_float_zero round_float_one

lemma pow2_overflow_example: "float_pow2 (Fin (2 ^ 600)) = Inl OverflowError"
  using round_float_huge by (simp add: float_pow2_def)

lemma error_example_big:
  "fst (error (Fin (2 ^ 600)) (Fin 0) \<lparr>m = Fin 1, b = Fin 0, history = []\<rparr>) = Fin (2 ^ 600)"
  using round_float_exact [of 1 600] by (simp add: error_eq float_mul_def float_sub_def)

lemma loss_example_big:
  "fst (loss (Fin (2 ^ 600)) (Fin 0) \<lparr>m = Fin 1, b = Fin 0, history = []\<rparr>) = Inl OverflowError"
  using error_example_big pow2_overflow_example by (simp add: loss_def error_eq)

lemma loss_example_16:
  "fst (loss (Fin 3) (Fin 11) \<lparr>m = Fin 2, b = Fin 1, history = []\<rparr>) = Inr (Fin 16)"
  by (simp add: loss_eq float_eval)

lemma loss_example_9:
  "fst (loss (Fin 3) (Fin 10) \<lparr>m = Fin 2, b = Fin 1, history = []\<rparr>) = Inr (Fin 9)"
  by (simp add: loss_eq float_eval)

lemma loss_example_0:
  "fst (loss (Fin 1) (Fin 3) \<lparr>m = Fin 2, b = Fin 1, history = []\<rparr>) = Inr (Fin 0)"
  by (simp add: loss_eq float_eval)

lemma rmse_example_4:
  "rmse [Fin 3, Fin 1, Fin 1, Fin 1] [Fin 11, Fin 3, Fin 3, Fin 3]
     \<lparr>m = Fin 2, b = Fin 1, history = []\<rparr> =
   (Inr (Fin 1), \<lparr>m = Fin 2, b = Fin 1, history = []\<rparr>)"
proof -
  have "map (\<lambda>(x, y). fst (loss x y \<lparr>m = Fin 2, b = Fin 1, history = []\<rparr>))
      (zip [Fin 3, Fin 1, Fin 1, Fin 1] [Fin 11, Fin 3, Fin 3, Fin 3]) =
      map Inr [Fin 16, Fin 0, Fin 0, Fin 0]"
    by (simp add: loss_example_16 loss_example_0)
  from rmse_ok [OF this] show ?thesis
    by (simp add: py_sum_def float_eval)
qed

lemma rmse_example_mismatch:
  "rmse [Fin 3] [Fin 10, Fin 11] \<lparr>m = Fin 2, b = Fin 1, history = []\<rparr> =
   (Inr (Fin 3), \<lparr>m = Fin 2, b = Fin 1, history = []\<rparr>)"
proof -
  have "map (\<lambda>(x, y). fst (loss x y \<lparr>m = Fin 2, b = Fin 1, history = []\<rparr>))
      (zip [Fin 3] [Fin 10, Fin 11]) = map Inr [Fin 9]"
    by (simp add: loss_example_9)
  from rmse_ok [OF this] show ?thesis
    by (simp add: py_sum_def float_eval)
qed

lemma rmse_example_overflow:
  "rmse [Fin (2 ^ 600)] (Fin 0 # ys) \<lparr>m = Fin 1, b = Fin 0, history = []\<rparr> =
   (Inl OverflowError, \<lparr>m = Fin 1, b = Fin 0, history = []\<rparr>)"
  by (rule rmse_overflow) (use loss_example_big in simp)

subsection \<open>The aggregate error\<close>

text \<open>
  C1 says that \<^verbatim>\<open>rmse\<close> returns a number for every pair of non-empty lists of equal
  length. With slope 1, intercept 0 and the single observation \<open>(2 ^ 600, 0)\<close> the error is
  \<open>2 ^ 600\<close>, its square is out of the range of a float, and \<^verbatim>\<open>rmse\<close> raises
  \<^verbatim>\<open>OverflowError\<close>.
\<close>

theorem rmse_overflow_counterexample:
  "length [Fin (2 ^ 600)] = length [Fin 0] \<and> [Fin (2 ^ 600)] \<noteq> [] \<and>
   fst (rmse [Fin (2 ^ 600)] [Fin 0] \<lparr>m = Fin 1, b = Fin 0, history = []\<rparr>) =
     Inl OverflowError"
  using rmse_example_overflow [of "[]"] by simp

text \<open>
  C1, amended. For lists of equal, nonzero length: when the square in the loss of some
  pair overflows, \<^verbatim>\<open>rmse\<close> raises \<^verbatim>\<open>OverflowError\<close>; when every loss returns,
  \<^verbatim>\<open>rmse\<close> returns the square root of the sum of the losses, divided afterwards by the
  length. One of the two is always the case.
\<close>

theorem rmse_sqrt_then_divide:
  assumes "length xs = length ys" and "xs \<noteq> []"
  shows
    "(Inl OverflowError \<in> set (map (\<lambda>i. fst (loss (xs ! i) (ys ! i) self)) [0..<length xs]) \<longrightarrow>
        fst (rmse xs ys self) = Inl OverflowError) \<and>
     (\<forall>ls. map (\<lambda>i. fst (loss (xs ! i) (ys ! i) self)) [0..<length xs] = map Inr ls \<longrightarrow>
        fst (rmse xs ys self) = Inr (float_div_nat (float_sqrt (py_sum ls)) (length xs))) \<and>
     (Inl OverflowError \<in> set (map (\<lambda>i. fst (loss (xs ! i) (ys ! i) self)) [0..<length xs]) \<or>
      (\<exists>ls. map (\<lambda>i. fst (loss (xs ! i) (ys ! i) self)) [0..<length xs] = map Inr ls))"
proof -
  have z: "map (\<lambda>i. fst (loss (xs ! i) (ys ! i) self)) [0..<length xs] =
      map (\<lambda>(x, y). fst (loss x y self)) (zip xs ys)"
    by (simp add: zip_map_nth flip: assms(1))
  show ?thesis
    unfolding z
    using losses_cases [of self "zip xs ys"] assms(2)
    by (auto simp: rmse_overflow rmse_ok)
qed

text \<open>
  Four observations with losses 16, 0, 0, 0: the result is \<open>sqrt 16 / 4 = 1\<close>, where
  the textbook value, the square root of \<open>16 / 4\<close>, is 2.
\<close>

theorem rmse_sqrt_then_divide_witness:
  "length [Fin 3, Fin 1, Fin 1, Fin 1] = length [Fin 11, Fin 3, Fin 3, Fin 3] \<and>
   [Fin 3, Fin 1, Fin 1, Fin 1] \<noteq> [] \<and>
   fst (rmse [Fin 3, Fin 1, Fin 1, Fin 1] [Fin 11, Fin 3, Fin 3, Fin 3]
        \<lparr>m = Fin 2, b = Fin 1, history = []\<rparr>) =
     Inr (float_div_nat (float_sqrt (py_sum [Fin 16, Fin 0, Fin 0, Fin 0])) 4) \<and>
   float_div_nat (float_sqrt (py_sum [Fin 16, Fin 0, Fin 0, Fin 0])) 4 = Fin 1 \<and>
   float_sqrt (float_div_nat (py_sum [Fin 16, Fin 0, Fin 0, Fin 0]) 4) = Fin 2"
proof -
  have len: "length [Fin 3, Fin 1, Fin 1, Fin 1] = length [Fin 11, Fin 3, Fin 3, Fin 3]"
    by simp
  have ne: "[Fin 3, Fin 1, Fin 1, Fin 1] \<noteq> []"
    by simp
  have l: "map (\<lambda>i. fst (loss ([Fin 3, Fin 1, Fin 1, Fin 1] ! i)
        ([Fin 11, Fin 3, Fin 3, Fin 3] ! i) \<lparr>m = Fin 2, b = Fin 1, history = []\<rparr>))
      [0..<length [Fin 3, Fin 1, Fin 1, Fin 1]] = map Inr [Fin 16, Fin 0, Fin 0, Fin 0]"
    by (simp add: loss_example_16 loss_example_0 upt_rec)
  have "fst (rmse [Fin 3, Fin 1, Fin 1, Fin 1] [Fin 11, Fin 3, Fin 3, Fin 3]
        \<lparr>m = Fin 2, b = Fin 1, history = []\<rparr>) =
     Inr (float_div_nat (float_sqrt (py_sum [Fin 16, Fin 0, Fin 0, Fin 0]))
        (length [Fin 3, Fin 1, Fin 1, Fin 1]))"
    using rmse_sqrt_then_divide [of "[Fin 3, Fin 1, Fin 1, Fin 1]"
        "[Fin 11, Fin 3, Fin 3, Fin 3]" "\<lparr>m = Fin 2, b = Fin 1, history = []\<rparr>", OF len ne] l
    by blast
  then show ?thesis
    by (simp add: py_sum_def float_eval)
qed

text \<open>
  C10 says that \<^verbatim>\<open>rmse\<close> raises nothing when \<open>xs\<close> is not empty and not longer than
  \<open>ys\<close>. With one x-value \<open>2 ^ 600\<close> against two y-values the square in the loss
  overflows and \<^verbatim>\<open>rmse\<close> raises \<^verbatim>\<open>OverflowError\<close>.
\<close>

theorem rmse_zip_overflow_counterexample:
  "length [Fin (2 ^ 600)] \<le> length [Fin 0, Fin 5] \<and> 0 < length [Fin (2 ^ 600)] \<and>
   fst (rmse [Fin (2 ^ 600)] [Fin 0, Fin 5] \<lparr>m = Fin 1, b = Fin 0, history = []\<rparr>) =
     Inl OverflowError"
  using rmse_example_overflow [of "[Fin 5]"] by simp

text \<open>
  C10, amended. When \<open>xs\<close> is not empty and not longer than \<open>ys\<close>, the elements are paired
  by position up to the shorter length and the rest of \<open>ys\<close> is ignored, also when the
  lengths differ. When the square in the loss of some pair overflows, \<^verbatim>\<open>rmse\<close> raises
  \<^verbatim>\<open>OverflowError\<close>; when every loss returns, it returns the square root of the sum of
  the losses of those pairs, divided by the length of \<open>xs\<close>.
\<close>

theorem rmse_zip_shorter:
  assumes "length xs \<le> length ys" and "0 < length xs"
  shows
    "(Inl OverflowError \<in> set (map (\<lambda>i. fst (loss (xs ! i) (ys ! i) self))
          [0..<min (length xs) (length ys)]) \<longrightarrow>
        fst (rmse xs ys self) = Inl OverflowError) \<and>
     (\<forall>ls. map (\<lambda>i. fst (loss (xs ! i) (ys ! i) self))
          [0..<min (length xs) (length ys)] = map Inr ls \<longrightarrow>
        fst (rmse xs ys self) = Inr (float_div_nat (float_sqrt (py_sum ls)) (length xs))) \<and>
     (Inl OverflowError \<in> set (map (\<lambda>i. fst (loss (xs ! i) (ys ! i) self))
          [0..<min (length xs) (length ys)]) \<or>
      (\<exists>ls. map (\<lambda>i. fst (loss (xs ! i) (ys ! i) self))
          [0..<min (length xs) (length ys)] = map Inr ls)) \<and>
     rmse xs ys self = rmse xs (take (length xs) ys) self"
proof -
  have z: "map (\<lambda>i. fst (loss (xs ! i) (ys ! i) self)) [0..<min (length xs) (length ys)] =
      map (\<lambda>(x, y). fst (loss x y self)) (zip xs ys)"
    by (simp only: zip_map_nth)
  have ne: "xs \<noteq> []" using assms(2) by simp
  have "zip xs (take (length xs) ys) = zip xs ys"
    using assms(1) by (induction xs ys rule: list_induct2') simp_all
  then have t: "rmse xs ys self = rmse xs (take (length xs) ys) self"
    by (simp add: rmse_def)
  have "(Inl OverflowError \<in> set (map (\<lambda>(x, y). fst (loss x y self)) (zip xs ys)) \<longrightarrow>
        fst (rmse xs ys self) = Inl OverflowError) \<and>
     (\<forall>ls. map (\<lambda>(x, y). fst (loss x y self)) (zip xs ys) = map Inr ls \<longrightarrow>
        fst (rmse xs ys self) = Inr (float_div_nat (float_sqrt (py_sum ls)) (length xs))) \<and>
     (Inl OverflowError \<in> set (map (\<lambda>(x, y). fst (loss x y self)) (zip xs ys)) \<or>
      (\<exists>ls. map (\<lambda>(x, y). fst (loss x y self)) (zip xs ys) = map Inr ls))"
    using losses_cases [of self "zip xs ys"] ne
    by (auto simp: rmse_overflow rmse_ok)
  with t show ?thesis
    unfolding z by (intro conjI) blast+
qed

text \<open>One x-value against two y-values: the second y-value plays no part.\<close>

theorem rmse_zip_shorter_witness:
  "length [Fin 3] \<le> length [Fin 10, Fin 11] \<and> 0 < length [Fin 3] \<and>
   fst (rmse [Fin 3] [Fin 10, Fin 11] \<lparr>m = Fin 2, b = Fin 1, history = []\<rparr>) =
     Inr (float_div_nat (float_sqrt (py_sum [Fin 9])) 1) \<and>
   float_div_nat (float_sqrt (py_sum [Fin 9])) 1 = Fin 3 \<and>
   rmse [Fin 3] [Fin 10, Fin 11] \<lparr>m = Fin 2, b = Fin 1, history = []\<rparr> =
     rmse [Fin 3] [Fin 10] \<lparr>m = Fin 2, b = Fin 1, history = []\<rparr>"
proof -
  have len: "length [Fin 3] \<le> length [Fin 10, Fin 11]"
    by simp
  have pos: "0 < length [Fin 3]"
    by simp
  have l: "map (\<lambda>i. fst (loss ([Fin 3] ! i) ([Fin 10, Fin 11] ! i)
        \<lparr>m = Fin 2, b = Fin 1, history = []\<rparr>))
      [0..<min (length [Fin 3]) (length [Fin 10, Fin 11])] = map Inr [Fin 9]"
    by (simp add: loss_example_9)
  note t = rmse_zip_shorter [of "[Fin 3]" "[Fin 10, Fin 11]"
      "\<lparr>m = Fin 2, b = Fin 1, history = []\<rparr>", OF len pos]
  have "fst (rmse [Fin 3] [Fin 10, Fin 11] \<lparr>m = Fin 2, b = Fin 1, history = []\<rparr>) =
     Inr (float_div_nat (float_sqrt (py_sum [Fin 9])) (length [Fin 3]))"
    using t l by blast
  moreover have "rmse [Fin 3] [Fin 10, Fin 11] \<lparr>m = Fin 2, b = Fin 1, history = []\<rparr> =
     rmse [Fin 3] (take (length [Fin 3]) [Fin 10, Fin 11])
       \<lparr>m = Fin 2, b = Fin 1, history = []\<rparr>"
    using t by blast
  ultimately show ?thesis
    by (simp add: py_sum_def float_eval)
qed

text \<open>
  C2 says that \<^verbatim>\<open>rmse\<close> fails whenever the two lists differ in length or are empty. The
  code checks no lengths: with one x-value and two y-values it returns a number.
\<close>

theorem rmse_length_mismatch_counterexample:
  "length [Fin 3] \<noteq> length [Fin 10, Fin 11] \<and>
   fst (rmse [Fin 3] [Fin 10, Fin 11] \<lparr>m = Fin 2, b = Fin 1, history = []\<rparr>) = Inr (Fin 3)"
  by (simp add: rmse_example_mismatch)

lemma rmse_state: "snd (rmse xs ys self) = self"
proof -
  from losses_cases [of self "zip xs ys"] show ?thesis
  proof
    assume "Inl OverflowError \<in> set (map (\<lambda>(x, y). fst (loss x y self)) (zip xs ys))"
    then show ?thesis by (simp only: rmse_overflow snd_conv)
  next
    assume "\<exists>ls. map (\<lambda>(x, y). fst (loss x y self)) (zip xs ys) = map Inr ls \<and>
      list_all (\<lambda>v. \<not> float_negative v) ls"
    then obtain ls where "map (\<lambda>(x, y). fst (loss x y self)) (zip xs ys) = map Inr ls"
      by blast
    then show ?thesis by (simp only: rmse_ok snd_conv)
  qed
qed

text \<open>
  C2, amended. \<^verbatim>\<open>rmse\<close> raises \<^verbatim>\<open>ZeroDivisionError\<close> when \<open>xs\<close> is empty, whatever \<open>ys\<close>
  is. When \<open>xs\<close> is not empty it raises \<^verbatim>\<open>OverflowError\<close> if the square in the loss of
  some pair overflows, and otherwise returns a number, for lists of equal length and for
  lists of different lengths alike. The model is left as it was in every case.
\<close>

theorem rmse_raises_iff:
  "(xs = [] \<longrightarrow> fst (rmse xs ys self) = Inl ZeroDivisionError) \<and>
   (xs \<noteq> [] \<and>
      Inl OverflowError \<in> set (map (\<lambda>i. fst (loss (xs ! i) (ys ! i) self))
        [0..<min (length xs) (length ys)]) \<longrightarrow>
      fst (rmse xs ys self) = Inl OverflowError) \<and>
   (xs \<noteq> [] \<and>
      Inl OverflowError \<notin> set (map (\<lambda>i. fst (loss (xs ! i) (ys ! i) self))
        [0..<min (length xs) (length ys)]) \<longrightarrow>
      (\<exists>v. fst (rmse xs ys self) = Inr v)) \<and>
   snd (rmse xs ys self) = self"
proof -
  have z: "map (\<lambda>i. fst (loss (xs ! i) (ys ! i) self)) [0..<min (length xs) (length ys)] =
      map (\<lambda>(x, y). fst (loss x y self)) (zip xs ys)"
    by (simp only: zip_map_nth)
  have e: "rmse [] ys self = (Inl ZeroDivisionError, self)"
    using rmse_ok [of self "[]" ys "[]"] by simp
  have "(xs = [] \<longrightarrow> fst (rmse xs ys self) = Inl ZeroDivisionError) \<and>
     (xs \<noteq> [] \<and>
        Inl OverflowError \<in> set (map (\<lambda>(x, y). fst (loss x y self)) (zip xs ys)) \<longrightarrow>
        fst (rmse xs ys self) = Inl OverflowError) \<and>
     (xs \<noteq> [] \<and>
        Inl OverflowError \<notin> set (map (\<lambda>(x, y). fst (loss x y self)) (zip xs ys)) \<longrightarrow>
        (\<exists>v. fst (rmse xs ys self) = Inr v))"
    using losses_cases [of self "zip xs ys"] e
    by (auto simp: rmse_overflow rmse_ok)
  with rmse_state [of xs ys self] show ?thesis
    unfolding z by (intro conjI) blast+
qed

text \<open>An empty \<open>xs\<close>; an overflowing loss; lists of different lengths.\<close>

theorem rmse_raises_iff_witness:
  "fst (rmse [] [Fin 10, Fin 11] \<lparr>m = Fin 2, b = Fin 1, history = []\<rparr>) =
     Inl ZeroDivisionError \<and>
   fst (rmse [Fin (2 ^ 600)] [Fin 0, Fin 5] \<lparr>m = Fin 1, b = Fin 0, history = []\<rparr>) =
     Inl OverflowError \<and>
   (\<exists>v. fst (rmse [Fin 3] [Fin 10, Fin 11] \<lparr>m = Fin 2, b = Fin 1, history = []\<rparr>) = Inr v)"
proof -
  have "fst (rmse [] [Fin 10, Fin 11] \<lparr>m = Fin 2, b = Fin 1, history = []\<rparr>) =
      Inl ZeroDivisionError"
    using rmse_raises_iff [of "[]" "[Fin 10, Fin 11]" "\<lparr>m = Fin 2, b = Fin 1, history = []\<rparr>"]
    by blast
  moreover have "fst (rmse [Fin (2 ^ 600)] [Fin 0, Fin 5]
      \<lparr>m = Fin 1, b = Fin 0, history = []\<rparr>) = Inl OverflowError"
    using rmse_raises_iff [of "[Fin (2 ^ 600)]" "[Fin 0, Fin 5]"
        "\<lparr>m = Fin 1, b = Fin 0, history = []\<rparr>"] loss_example_big
    by simp
  moreover have "\<exists>v. fst (rmse [Fin 3] [Fin 10, Fin 11]
      \<lparr>m = Fin 2, b = Fin 1, history = []\<rparr>) = Inr v"
    using rmse_raises_iff [of "[Fin 3]" "[Fin 10, Fin 11]"
        "\<lparr>m = Fin 2, b = Fin 1, history = []\<rparr>"] loss_example_9
    by simp
  ultimately show ?thesis by blast
qed

subsection \<open>Construction\<close>

lemma or_random_falsy:
  "v = None \<or> v = Some (Fin 0) \<Longrightarrow> or_random v g = (Fin (shd g), stl g)"
  by (auto simp: or_random_def random_random_def)

lemma or_random_truthy: "f \<noteq> Fin 0 \<Longrightarrow> or_random (Some f) g = (f, g)"
  by (simp add: or_random_def)

lemma rng_ok_shd: "rng_ok g \<Longrightarrow> unit_interval (shd g)"
  by (cases g) (simp add: rng_ok_def)

lemma rng_ok_stl: "rng_ok g \<Longrightarrow> rng_ok (stl g)"
  by (cases g) (simp add: rng_ok_def)

lemma or_random_rng_ok: "rng_ok g \<Longrightarrow> rng_ok (snd (or_random v g))"
  by (auto simp: or_random_def random_random_def rng_ok_stl split: option.splits)

lemma init_eq:
  "init m0 b0 g =
     (\<lparr>m = fst (or_random m0 g), b = fst (or_random b0 (snd (or_random m0 g))), history = []\<rparr>,
      snd (or_random b0 (snd (or_random m0 g))))"
  by (simp add: init_def split_def Let_def)

lemma init_m: "m (fst (init m0 b0 g)) = fst (or_random m0 g)"
  by (simp add: init_eq)

lemma init_b: "b (fst (init m0 b0 g)) = fst (or_random b0 (snd (or_random m0 g)))"
  by (simp add: init_eq)

text \<open>
  C3. A slope or intercept that is absent or 0 is replaced by the next value the generator
  returns, which lies in \<open>[0, 1)\<close> for a well-formed generator; the intercept's value is
  drawn after the slope's, when the slope drew one. A supplied value other than 0 is
  stored as it is. The history starts empty. (That the generator's values are uniformly
  distributed is a property of the library, not of this code.)
\<close>

theorem init_falsy_is_random:
  "history (fst (init m0 b0 g)) = [] \<and>
   (m0 = None \<or> m0 = Some (Fin 0) \<longrightarrow>
      m (fst (init m0 b0 g)) = fst (random_random g) \<and>
      (rng_ok g \<longrightarrow> (\<exists>r. m (fst (init m0 b0 g)) = Fin r \<and> 0 \<le> r \<and> r < 1))) \<and>
   (b0 = None \<or> b0 = Some (Fin 0) \<longrightarrow>
      b (fst (init m0 b0 g)) = fst (random_random (snd (or_random m0 g))) \<and>
      (rng_ok g \<longrightarrow> (\<exists>r. b (fst (init m0 b0 g)) = Fin r \<and> 0 \<le> r \<and> r < 1))) \<and>
   (\<forall>v. m0 = Some v \<and> v \<noteq> Fin 0 \<longrightarrow> m (fst (init m0 b0 g)) = v) \<and>
   (\<forall>v. b0 = Some v \<and> v \<noteq> Fin 0 \<longrightarrow> b (fst (init m0 b0 g)) = v)"
proof -
  have hist: "history (fst (init m0 b0 g)) = []"
    by (simp add: init_eq)
  have mr: "m (fst (init m0 b0 g)) = fst (random_random g) \<and>
      (rng_ok g \<longrightarrow> (\<exists>r. m (fst (init m0 b0 g)) = Fin r \<and> 0 \<le> r \<and> r < 1))"
    if "m0 = None \<or> m0 = Some (Fin 0)"
    using rng_ok_shd [of g] or_random_falsy [OF that, of g]
    by (simp add: init_m random_random_def unit_interval_def)
  have br: "b (fst (init m0 b0 g)) = fst (random_random (snd (or_random m0 g))) \<and>
      (rng_ok g \<longrightarrow> (\<exists>r. b (fst (init m0 b0 g)) = Fin r \<and> 0 \<le> r \<and> r < 1))"
    if "b0 = None \<or> b0 = Some (Fin 0)"
    using rng_ok_shd [of "snd (or_random m0 g)"] or_random_rng_ok [of g m0]
      or_random_falsy [OF that, of "snd (or_random m0 g)"]
    by (simp add: init_b random_random_def unit_interval_def)
  have mt: "m (fst (init m0 b0 g)) = v" if "m0 = Some v \<and> v \<noteq> Fin 0" for v
    using that by (simp add: init_m or_random_truthy)
  have bt: "b (fst (init m0 b0 g)) = v" if "b0 = Some v \<and> v \<noteq> Fin 0" for v
    using that by (simp add: init_b or_random_truthy)
  from hist mr br mt bt show ?thesis by blast
qed

lemma rng_ok_half: "rng_ok (sconst (1 / 2))"
  by (simp add: rng_ok_def unit_interval_def stream.pred_set)

text \<open>
  A generator that always returns \<open>1 / 2\<close>: built without a slope and with intercept 0, the
  model has slope and intercept \<open>1 / 2\<close>; built with 2 and 1 it has 2 and 1.
\<close>

theorem init_falsy_is_random_witness:
  "fst (init None (Some (Fin 0)) (sconst (1 / 2))) =
     \<lparr>m = Fin (1 / 2), b = Fin (1 / 2), history = []\<rparr> \<and>
   rng_ok (sconst (1 / 2)) \<and>
   fst (init (Some (Fin 2)) (Some (Fin 1)) (sconst (1 / 2))) =
     \<lparr>m = Fin 2, b = Fin 1, history = []\<rparr>"
proof -
  have "m (fst (init None (Some (Fin 0)) (sconst (1 / 2)))) = Fin (1 / 2) \<and>
      b (fst (init None (Some (Fin 0)) (sconst (1 / 2)))) = Fin (1 / 2) \<and>
      history (fst (init None (Some (Fin 0)) (sconst (1 / 2)))) = []"
    using init_falsy_is_random [of None "Some (Fin 0)" "sconst (1 / 2)"]
    by (simp add: random_random_def or_random_def)
  moreover have "m (fst (init (Some (Fin 2)) (Some (Fin 1)) (sconst (1 / 2)))) = Fin 2 \<and>
      b (fst (init (Some (Fin 2)) (Some (Fin 1)) (sconst (1 / 2)))) = Fin 1 \<and>
      history (fst (init (Some (Fin 2)) (Some (Fin 1)) (sconst (1 / 2)))) = []"
    using init_falsy_is_random [of "Some (Fin 2)" "Some (Fin 1)" "sconst (1 / 2)"]
    by simp
  ultimately show ?thesis
    using rng_ok_half by (simp add: linear_model.equality)
qed

subsection \<open>Prediction, error, loss, gradient\<close>

text \<open>
  C7. \<^verbatim>\<open>predict(x)\<close> returns \<open>m * x + b\<close>, in float arithmetic, and leaves slope,
  intercept and history as they were.
\<close>

theorem predict_is_line:
  "predict x self = (float_add (float_mul (m self) x) (b self), self)"
  by (simp add: predict_def)

text \<open>
  C4. \<^verbatim>\<open>gradient(x, y)\<close> returns the pair of \<open>x\<close> times the error and the error, where the
  error is \<open>m * x + b - y\<close>: there is no factor 2. The model is left as it was.
\<close>

theorem gradient_no_factor_two:
  "gradient x y self = ((float_mul x (fst (error x y self)), fst (error x y self)), self) \<and>
   fst (error x y self) = float_sub (float_add (float_mul (m self) x) (b self)) y"
  by (simp add: gradient_def error_eq)

lemma round_float_not_nan: "round_float r \<noteq> NaN"
  by (simp add: round_float_def Let_def)

lemma float_mul_finite_not_nan: "float_mul (Fin u) (Fin v) \<noteq> NaN"
  by (simp add: float_mul_def round_float_not_nan)

lemma float_add_finite_not_nan: "u \<noteq> NaN \<Longrightarrow> float_add u (Fin v) \<noteq> NaN"
  by (cases u) (simp_all add: round_float_not_nan)

lemma float_pow2_not_nan: "u \<noteq> NaN \<Longrightarrow> float_pow2 u \<noteq> Inr NaN"
  by (cases u) (simp_all add: float_pow2_def split: py_float.splits)

lemma loss_finite_not_nan:
  assumes "is_finite (m self)" and "is_finite (b self)" and "is_finite x" and "is_finite y"
  shows "fst (loss x y self) \<noteq> Inr NaN"
proof -
  from assms obtain mv bv xv yv
    where v: "m self = Fin mv" "b self = Fin bv" "x = Fin xv" "y = Fin yv"
    by (cases "m self"; cases "b self"; cases x; cases y) simp_all
  have "float_add (float_mul (Fin mv) (Fin xv)) (Fin bv) \<noteq> NaN"
    by (intro float_add_finite_not_nan float_mul_finite_not_nan)
  then have "float_add (float_add (float_mul (Fin mv) (Fin xv)) (Fin bv)) (Fin (- yv)) \<noteq> NaN"
    by (rule float_add_finite_not_nan)
  then show ?thesis
    by (simp add: loss_eq v float_sub_def float_pow2_not_nan)
qed

lemma not_negative_ge_zero: "\<not> float_negative l \<Longrightarrow> l = NaN \<or> float_ge_zero l"
  by (cases l) simp_all

text \<open>
  C8 says that \<^verbatim>\<open>loss\<close> returns the squared error for every observation and every
  model. With slope 1, intercept 0 and the observation \<open>(2 ^ 600, 0)\<close> the square is out of
  range and \<^verbatim>\<open>loss\<close> raises \<^verbatim>\<open>OverflowError\<close>.
\<close>

theorem loss_overflow_counterexample:
  "fst (loss (Fin (2 ^ 600)) (Fin 0) \<lparr>m = Fin 1, b = Fin 0, history = []\<rparr>) =
     Inl OverflowError"
  by (rule loss_example_big)

text \<open>
  C8, amended. The error is the prediction minus \<open>y\<close>, and \<^verbatim>\<open>loss\<close> is the error
  \<^verbatim>\<open>** 2\<close>: it raises \<^verbatim>\<open>OverflowError\<close> exactly when the error is finite and its square
  is out of range, and otherwise returns the square. A returned loss is NaN or at least 0,
  and at least 0 whenever slope, intercept, \<open>x\<close> and \<open>y\<close> are finite. Neither call changes
  the model.
\<close>

theorem loss_is_squared_error:
  "fst (loss x y self) = float_pow2 (fst (error x y self)) \<and>
   fst (error x y self) = float_sub (fst (predict x self)) y \<and>
   snd (loss x y self) = self \<and> snd (error x y self) = self \<and>
   (fst (loss x y self) = Inl OverflowError \<longleftrightarrow>
      (\<exists>e. fst (error x y self) = Fin e \<and> \<not> is_finite (round_float (e ^ 2)))) \<and>
   (fst (loss x y self) = Inl OverflowError \<or> (\<exists>l. fst (loss x y self) = Inr l)) \<and>
   (\<forall>l. fst (loss x y self) = Inr l \<longrightarrow> l = NaN \<or> float_ge_zero l) \<and>
   (is_finite (m self) \<and> is_finite (b self) \<and> is_finite x \<and> is_finite y \<longrightarrow>
      (\<forall>l. fst (loss x y self) = Inr l \<longrightarrow> float_ge_zero l))"
proof -
  have a: "fst (loss x y self) = float_pow2 (fst (error x y self))"
    by (simp add: loss_eq error_eq)
  have c: "fst (error x y self) = float_sub (fst (predict x self)) y"
    by (simp add: error_eq predict_def)
  have d: "snd (loss x y self) = self \<and> snd (error x y self) = self"
    by (simp add: loss_eq error_eq)
  have e: "fst (loss x y self) = Inl OverflowError \<longleftrightarrow>
      (\<exists>e. fst (error x y self) = Fin e \<and> \<not> is_finite (round_float (e ^ 2)))"
    unfolding a by (rule float_pow2_overflow_iff)
  have f: "fst (loss x y self) = Inl OverflowError \<or> (\<exists>l. fst (loss x y self) = Inr l)"
    using loss_cases [of x y self] by blast
  have g: "l = NaN \<or> float_ge_zero l" if "fst (loss x y self) = Inr l" for l
    using that loss_cases [of x y self] not_negative_ge_zero [of l] by auto
  have h: "float_ge_zero l"
    if "is_finite (m self) \<and> is_finite (b self) \<and> is_finite x \<and> is_finite y"
      and "fst (loss x y self) = Inr l" for l
    using that g [of l] loss_finite_not_nan [of self x y] by auto
  from a c d e f g h show ?thesis by blast
qed

text \<open>Slope 2, intercept 1, observation \<open>(3, 10)\<close>: error \<open>- 3\<close>, loss 9.\<close>

theorem loss_is_squared_error_witness:
  "is_finite (Fin 2) \<and> is_finite (Fin 1) \<and> is_finite (Fin 3) \<and> is_finite (Fin 10) \<and>
   fst (loss (Fin 3) (Fin 10) \<lparr>m = Fin 2, b = Fin 1, history = []\<rparr>) = Inr (Fin 9) \<and>
   float_ge_zero (Fin 9) \<and>
   fst (error (Fin 3) (Fin 10) \<lparr>m = Fin 2, b = Fin 1, history = []\<rparr>) = Fin (- 3) \<and>
   float_pow2 (Fin (- 3)) = Inr (Fin 9)"
proof -
  note t = loss_is_squared_error [of "Fin 3" "Fin 10" "\<lparr>m = Fin 2, b = Fin 1, history = []\<rparr>"]
  have e: "fst (error (Fin 3) (Fin 10) \<lparr>m = Fin 2, b = Fin 1, history = []\<rparr>) = Fin (- 3)"
    by (simp add: error_eq float_eval)
  have p: "float_pow2 (Fin (- 3)) = Inr (Fin 9)"
    by (simp add: float_eval)
  from t e p have l: "fst (loss (Fin 3) (Fin 10) \<lparr>m = Fin 2, b = Fin 1, history = []\<rparr>) =
      Inr (Fin 9)"
    by simp
  from t l have "float_ge_zero (Fin 9)"
    by simp
  with e p l show ?thesis by simp
qed

subsection \<open>Mutation\<close>

lemma update_history_raises:
  "fst (loss x y self) = Inl e \<Longrightarrow> update_history x y epoch message self = (Inl e, self)"
  by (simp add: update_history_def predict_def error_eq loss_eq)

lemma update_history_returns:
  "fst (loss x y self) = Inr l \<Longrightarrow>
   update_history x y epoch message self =
     (Inr (), self\<lparr>history := history self @
        [\<lparr>rec_m = m self, rec_b = b self, rec_observation = (x, y),
          rec_prediction = fst (predict x self), rec_error = fst (error x y self),
          rec_loss = l, rec_epoch = epoch, rec_message = message\<rparr>]\<rparr>)"
  by (simp add: update_history_def predict_def error_eq loss_eq)

text \<open>
  C5 says that every call of \<^verbatim>\<open>update_history\<close> appends exactly one record. When the loss
  overflows, the call raises \<^verbatim>\<open>OverflowError\<close> while the dictionary is built, and the
  history stays empty.
\<close>

theorem update_history_overflow_counterexample:
  "fst (update_history (Fin (2 ^ 600)) (Fin 0) 0 None \<lparr>m = Fin 1, b = Fin 0, history = []\<rparr>) =
     Inl OverflowError \<and>
   history (snd (update_history (Fin (2 ^ 600)) (Fin 0) 0 None
     \<lparr>m = Fin 1, b = Fin 0, history = []\<rparr>)) = []"
  using update_history_raises [OF loss_example_big, of 0 None] by simp

text \<open>
  C5, amended. When \<^verbatim>\<open>loss(x, y)\<close> raises \<^verbatim>\<open>OverflowError\<close>, so does
  \<^verbatim>\<open>update_history(x, y, epoch, message)\<close>, and the model is left as it was. Otherwise
  the call appends exactly one record to the history and changes nothing else: slope and
  intercept are as before and the earlier records are as before. The record holds the
  slope and intercept of the call, the observation, the prediction, error and loss that
  \<^verbatim>\<open>predict\<close>, \<^verbatim>\<open>error\<close> and \<^verbatim>\<open>loss\<close> give for them, the epoch and the message;
  within the record the prediction is slope times x plus intercept, the error is the
  prediction minus y, and the loss is the error squared.
\<close>

theorem update_history_appends_one:
  "(fst (loss x y self) = Inl OverflowError \<longrightarrow>
      update_history x y epoch message self = (Inl OverflowError, self)) \<and>
   (\<forall>l. fst (loss x y self) = Inr l \<longrightarrow>
      (\<exists>r. update_history x y epoch message self =
              (Inr (), self\<lparr>history := history self @ [r]\<rparr>) \<and>
         m (snd (update_history x y epoch message self)) = m self \<and>
         b (snd (update_history x y epoch message self)) = b self \<and>
         length (history (snd (update_history x y epoch message self))) =
           Suc (length (history self)) \<and>
         take (length (history self)) (history (snd (update_history x y epoch message self))) =
           history self \<and>
         rec_m r = m self \<and> rec_b r = b self \<and> rec_observation r = (x, y) \<and>
         rec_prediction r = fst (predict x self) \<and>
         rec_error r = fst (error x y self) \<and>
         rec_loss r = l \<and>
         rec_epoch r = epoch \<and> rec_message r = message \<and>
         rec_prediction r = float_add (float_mul (rec_m r) (fst (rec_observation r))) (rec_b r) \<and>
         rec_error r = float_sub (rec_prediction r) (snd (rec_observation r)) \<and>
         float_pow2 (rec_error r) = Inr (rec_loss r))) \<and>
   (fst (loss x y self) = Inl OverflowError \<or> (\<exists>l. fst (loss x y self) = Inr l))"
proof -
  have a: "update_history x y epoch message self = (Inl OverflowError, self)"
    if "fst (loss x y self) = Inl OverflowError"
    using that by (rule update_history_raises)
  have c: "\<exists>r. update_history x y epoch message self =
              (Inr (), self\<lparr>history := history self @ [r]\<rparr>) \<and>
         m (snd (update_history x y epoch message self)) = m self \<and>
         b (snd (update_history x y epoch message self)) = b self \<and>
         length (history (snd (update_history x y epoch message self))) =
           Suc (length (history self)) \<and>
         take (length (history self)) (history (snd (update_history x y epoch message self))) =
           history self \<and>
         rec_m r = m self \<and> rec_b r = b self \<and> rec_observation r = (x, y) \<and>
         rec_prediction r = fst (predict x self) \<and>
         rec_error r = fst (error x y self) \<and>
         rec_loss r = l \<and>
         rec_epoch r = epoch \<and> rec_message r = message \<and>
         rec_prediction r = float_add (float_mul (rec_m r) (fst (rec_observation r))) (rec_b r) \<and>
         rec_error r = float_sub (rec_prediction r) (snd (rec_observation r)) \<and>
         float_pow2 (rec_error r) = Inr (rec_loss r)"
    if l: "fst (loss x y self) = Inr l" for l
  proof -
    have p: "float_pow2 (float_sub (float_add (float_mul (m self) x) (b self)) y) = Inr l"
      using l by (simp add: loss_eq)
    show ?thesis
      unfolding update_history_returns [OF l]
      by (rule exI [of _ "\<lparr>rec_m = m self, rec_b = b self, rec_observation = (x, y),
          rec_prediction = fst (predict x self), rec_error = fst (error x y self),
          rec_loss = l, rec_epoch = epoch, rec_message = message\<rparr>"])
        (simp add: predict_def error_eq p)
  qed
  have d: "fst (loss x y self) = Inl OverflowError \<or> (\<exists>l. fst (loss x y self) = Inr l)"
    using loss_cases [of x y self] by blast
  from a c d show ?thesis by blast
qed

text \<open>An overflowing call, and a call that appends one record to an empty history.\<close>

theorem update_history_appends_one_witness:
  "update_history (Fin (2 ^ 600)) (Fin 0) 0 None \<lparr>m = Fin 1, b = Fin 0, history = []\<rparr> =
     (Inl OverflowError, \<lparr>m = Fin 1, b = Fin 0, history = []\<rparr>) \<and>
   fst (loss (Fin 3) (Fin 10) \<lparr>m = Fin 2, b = Fin 1, history = []\<rparr>) = Inr (Fin 9) \<and>
   length (history (snd (update_history (Fin 3) (Fin 10) 2 (Some ''m'')
     \<lparr>m = Fin 2, b = Fin 1, history = []\<rparr>))) = Suc 0"
proof -
  have "update_history (Fin (2 ^ 600)) (Fin 0) 0 None \<lparr>m = Fin 1, b = Fin 0, history = []\<rparr> =
     (Inl OverflowError, \<lparr>m = Fin 1, b = Fin 0, history = []\<rparr>)"
    using update_history_appends_one [of "Fin (2 ^ 600)" "Fin 0"
        "\<lparr>m = Fin 1, b = Fin 0, history = []\<rparr>" 0 None] loss_example_big
    by blast
  moreover have "length (history (snd (update_history (Fin 3) (Fin 10) 2 (Some ''m'')
     \<lparr>m = Fin 2, b = Fin 1, history = []\<rparr>))) = Suc 0"
    using update_history_appends_one [of "Fin 3" "Fin 10"
        "\<lparr>m = Fin 2, b = Fin 1, history = []\<rparr>" 2 "Some ''m''"] loss_example_9
    by auto
  ultimately show ?thesis
    using loss_example_9 by blast
qed

text \<open>
  C6 says that two steps give the slope of one step with the summed arguments. From
  slope 1, a step of \<open>2 ^ 53\<close> gives \<open>2 ^ 53\<close>, because \<open>2 ^ 53 + 1\<close> is not a float and
  rounds down; the step of \<open>- (2 ^ 53)\<close> then gives 0. The sum of the two steps is 0, and
  the single step leaves the slope at 1.
\<close>

theorem step_additivity_counterexample:
  "m (snd (step (Fin (- (2 ^ 53))) (Fin 0)
       (snd (step (Fin (2 ^ 53)) (Fin 0) \<lparr>m = Fin 1, b = Fin 0, history = []\<rparr>)))) = Fin 0 \<and>
   m (snd (step (float_add (Fin (2 ^ 53)) (Fin (- (2 ^ 53)))) (float_add (Fin 0) (Fin 0))
       \<lparr>m = Fin 1, b = Fin 0, history = []\<rparr>)) = Fin 1"
  using round_float_tie
  by (simp add: step_def round_float_zero round_float_one)

text \<open>
  C6, amended. \<^verbatim>\<open>step\<close> sets the slope to the float sum of the old slope and its first
  argument, the intercept to the float sum of the old intercept and its second argument,
  and touches nothing else. Two steps in a row give the slope of the one step with the
  summed arguments whenever the three additions involved (old slope plus first step, that
  sum plus second step, first step plus second step) are exact; likewise for the
  intercept.
\<close>

theorem step_adds_and_is_additive:
  "m (snd (step m_step b_step self)) = float_add (m self) m_step \<and>
   b (snd (step m_step b_step self)) = float_add (b self) b_step \<and>
   history (snd (step m_step b_step self)) = history self \<and>
   snd (step m_step b_step self) =
     self\<lparr>m := float_add (m self) m_step, b := float_add (b self) b_step\<rparr> \<and>
   (exact_add (m self) m_step \<and> exact_add (float_add (m self) m_step) m2 \<and>
    exact_add m_step m2 \<longrightarrow>
      m (snd (step m2 b2 (snd (step m_step b_step self)))) =
        m (snd (step (float_add m_step m2) (float_add b_step b2) self))) \<and>
   (exact_add (b self) b_step \<and> exact_add (float_add (b self) b_step) b2 \<and>
    exact_add b_step b2 \<longrightarrow>
      b (snd (step m2 b2 (snd (step m_step b_step self)))) =
        b (snd (step (float_add m_step m2) (float_add b_step b2) self)))"
proof -
  have assoc: "float_add (float_add u v) w = float_add u (float_add v w)"
    if "exact_add u v \<and> exact_add (float_add u v) w \<and> exact_add v w" for u v w
  proof -
    from that obtain x y z where v: "u = Fin x" "v = Fin y" "w = Fin z"
      by (cases u; cases v; cases w) simp_all
    from that have r1: "round_float (x + y) = Fin (x + y)"
      by (simp add: v)
    from that have r2: "round_float (x + y + z) = Fin (x + y + z)"
      by (simp add: v r1)
    from that have r3: "round_float (y + z) = Fin (y + z)"
      by (simp add: v)
    from r1 r2 r3 have "float_add (float_add (Fin x) (Fin y)) (Fin z) =
        float_add (Fin x) (float_add (Fin y) (Fin z))"
      by (simp add: add.assoc)
    then show ?thesis
      by (simp only: v)
  qed
  show ?thesis
    using assoc [of "m self" m_step m2] assoc [of "b self" b_step b2]
    by (simp add: step_def)
qed

text \<open>Small whole numbers add exactly: from slope 1, steps 2 and 3 give 6 either way.\<close>

theorem step_adds_and_is_additive_witness:
  "exact_add (Fin 1) (Fin 2) \<and> exact_add (float_add (Fin 1) (Fin 2)) (Fin 3) \<and>
   exact_add (Fin 2) (Fin 3) \<and>
   exact_add (Fin 0) (Fin 1) \<and> exact_add (float_add (Fin 0) (Fin 1)) (Fin 1) \<and>
   exact_add (Fin 1) (Fin 1) \<and>
   m (snd (step (Fin 3) (Fin 1) (snd (step (Fin 2) (Fin 1)
       \<lparr>m = Fin 1, b = Fin 0, history = []\<rparr>)))) = Fin 6 \<and>
   m (snd (step (float_add (Fin 2) (Fin 3)) (float_add (Fin 1) (Fin 1))
       \<lparr>m = Fin 1, b = Fin 0, history = []\<rparr>)) = Fin 6 \<and>
   b (snd (step (Fin 3) (Fin 1) (snd (step (Fin 2) (Fin 1)
       \<lparr>m = Fin 1, b = Fin 0, history = []\<rparr>)))) = Fin 2 \<and>
   b (snd (step (float_add (Fin 2) (Fin 3)) (float_add (Fin 1) (Fin 1))
       \<lparr>m = Fin 1, b = Fin 0, history = []\<rparr>)) = Fin 2"
  using step_adds_and_is_additive [of "Fin 2" "Fin 1"
      "\<lparr>m = Fin 1, b = Fin 0, history = []\<rparr>" "Fin 3" "Fin 1"]
  by (simp add: step_def float_eval)

subsection \<open>The string form\<close>











end
